theory Spec2Isabelle
  imports Main
begin

section \<open>The data model\<close>

text \<open>
  The question-array utilities (\<^verbatim>\<open>getNonEmptyQuestions\<close> to
  \<^verbatim>\<open>duplicateQuestionInArray\<close>) work on arrays of \<^verbatim>\<open>Question\<close>. The interface is
  imported by their module from \<^verbatim>\<open>./interfaces/question\<close>; its fields are
  \<^verbatim>\<open>{ id: number, name: string, type: QuestionType, body: string, expected: string,
     options: string[], points: number, published: boolean }\<close>.

  A TypeScript \<^verbatim>\<open>number\<close> held by a question or passed as an id or an index is
  modelled by \<^typ>\<open>int\<close>: the integer-valued numbers, on which \<^verbatim>\<open><=\<close>, \<^verbatim>\<open>==\<close>,
  \<^verbatim>\<open>!=\<close> and \<^verbatim>\<open>===\<close> are the integer comparisons. Sums of points are doubles with
  their rounding (\<open>number_add\<close> below); \<^verbatim>\<open>foundQuestion + 1\<close> is an array index plus
  one, which is exact. The fields \<^verbatim>\<open>id\<close> and \<^verbatim>\<open>type\<close> carry the suffix \<open>_q\<close>, the
  other fields keep their names.
\<close>

datatype QuestionType = multiple_choice_question | short_answer_question

record Question =
  id_q :: int
  name :: string
  type_q :: QuestionType
  body :: string
  expected :: string
  options :: "string list"
  points :: int
  published :: bool

text \<open>
  What a by-id update can do other than return a \<^verbatim>\<open>Question[]\<close>: raise a
  \<^verbatim>\<open>TypeError\<close> (a property read on \<^verbatim>\<open>undefined\<close>), or return an array that holds
  a value which is not a \<^verbatim>\<open>Question\<close> (an object without the fields, an options array
  with holes).
\<close>

datatype fault = TypeError | IllTyped

section \<open>The array primitives of the language\<close>

text \<open>\<^verbatim>\<open>xs[i]\<close>: the element, or \<^verbatim>\<open>undefined\<close> (here \<open>None\<close>) outside the array.\<close>

definition index :: "'a list \<Rightarrow> int \<Rightarrow> 'a option" where
  "index xs i = (if 0 \<le> i \<and> i < int (length xs) then Some (xs ! nat i) else None)"

text \<open>\<^verbatim>\<open>xs.findIndex(p)\<close>: the index of the first element satisfying \<open>p\<close>, or \<open>-1\<close>.\<close>

fun findIndex_from :: "int \<Rightarrow> ('a \<Rightarrow> bool) \<Rightarrow> 'a list \<Rightarrow> int" where
  "findIndex_from k p [] = - 1"
| "findIndex_from k p (x # xs) = (if p x then k else findIndex_from (k + 1) p xs)"

definition findIndex :: "('a \<Rightarrow> bool) \<Rightarrow> 'a list \<Rightarrow> int" where
  "findIndex p xs = findIndex_from 0 p xs"

text \<open>
  \<^verbatim>\<open>xs.slice(start, end)\<close>: a negative bound counts from the end of the array, and both
  bounds are clamped to the array. \<^verbatim>\<open>xs.slice(start)\<close> runs to the end.
\<close>

definition relative_bound :: "int \<Rightarrow> nat \<Rightarrow> nat" where
  "relative_bound i len = (if i < 0 then nat (max (int len + i) 0) else min (nat i) len)"

definition slice :: "'a list \<Rightarrow> int \<Rightarrow> int \<Rightarrow> 'a list" where
  "slice xs start fin =
     (let k = relative_bound start (length xs); final = relative_bound fin (length xs)
      in take (final - k) (drop k xs))"

definition slice_from :: "'a list \<Rightarrow> int \<Rightarrow> 'a list" where
  "slice_from xs start = drop (relative_bound start (length xs)) xs"





section \<open>Numbers and their addition\<close>

text \<open>
  \<^verbatim>\<open>total += question.points\<close> is the addition of doubles: the exact sum, rounded to
  the nearest double, a tie going to the one with the even significand, and a sum too large
  for a finite double giving an infinity. On integers: those below \<open>2\<^sup>5\<^sup>3\<close> in magnitude
  are doubles; a larger magnitude \<open>a\<close> keeps its \<open>53\<close> leading bits, so the doubles
  around it are the multiples of \<open>2\<^sup>s\<close>, where \<open>s\<close> is the number of halvings that bring
  \<open>a\<close> below \<open>2\<^sup>5\<^sup>3\<close>.
\<close>

datatype number = Finite int | Infinity | MinusInfinity

function ulp_exponent :: "nat \<Rightarrow> nat" where
  "ulp_exponent a = (if a < 2 ^ 53 then 0 else Suc (ulp_exponent (a div 2)))"
  by pat_completeness auto
termination
  by (relation "measure (\<lambda>a. a)") auto

declare ulp_exponent.simps [simp del]

definition round_to_nearest_even :: "nat \<Rightarrow> nat" where
  "round_to_nearest_even a =
     (let s = ulp_exponent a; q = a div 2 ^ s; r = a mod 2 ^ s
      in if 2 ^ s < 2 * r \<or> (2 * r = 2 ^ s \<and> odd q) then (q + 1) * 2 ^ s else q * 2 ^ s)"

definition to_double :: "int \<Rightarrow> number" where
  "to_double x =
     (let m = round_to_nearest_even (nat \<bar>x\<bar>)
      in if 2 ^ 1024 \<le> m then (if x < 0 then MinusInfinity else Infinity)
         else Finite (if x < 0 then - int m else int m))"


text \<open>\<^verbatim>\<open>x <= y\<close> on these numbers.\<close>

fun number_le :: "number \<Rightarrow> number \<Rightarrow> bool" where
  "number_le (Finite a) (Finite b) = (a \<le> b)"
| "number_le MinusInfinity y = True"
| "number_le x Infinity = True"
| "number_le Infinity y = False"
| "number_le x MinusInfinity = False"

section \<open>The question-array utilities\<close>

text \<open>\<^verbatim>\<open>getNonEmptyQuestions\<close>: a filter on the three lengths.\<close>

definition getNonEmptyQuestions :: "Question list \<Rightarrow> Question list" where
  "getNonEmptyQuestions questions =
     filter (\<lambda>question. length (body question) \<noteq> 0 \<or> length (expected question) \<noteq> 0
                        \<or> length (options question) \<noteq> 0) questions"

text \<open>
  \<^verbatim>\<open>findQuestion\<close>: \<^verbatim>\<open>find\<close> gives the first match or \<^verbatim>\<open>undefined\<close>; an object is
  truthy, so \<^verbatim>\<open>|| null\<close> turns exactly \<^verbatim>\<open>undefined\<close> into \<^verbatim>\<open>null\<close>, which is
  \<open>None\<close> here.
\<close>

definition findQuestion :: "Question list \<Rightarrow> int \<Rightarrow> Question option" where
  "findQuestion questions ident =
     (case List.find (\<lambda>question. id_q question = ident) questions of
        Some question \<Rightarrow> Some question
      | None \<Rightarrow> None)"

definition removeQuestion :: "Question list \<Rightarrow> int \<Rightarrow> Question list" where
  "removeQuestion questions ident = filter (\<lambda>question. id_q question \<noteq> ident) questions"




definition sameType :: "Question list \<Rightarrow> bool" where
  "sameType questions =
     (if length questions = 0 then True
      else let currentType = type_q (questions ! 0)
           in fold (\<lambda>question isSame.
                      if type_q question \<noteq> currentType \<and> isSame then False else isSame)
                questions True)"

text \<open>
  The by-id updates share one shape: \<^verbatim>\<open>findIndex\<close> for the target, \<^verbatim>\<open>questions[i]\<close>
  for its data, \<^verbatim>\<open>slice(0, i)\<close>, the rebuilt element, \<^verbatim>\<open>slice(i + 1)\<close>. When no
  question has the id, \<^verbatim>\<open>findIndex\<close> gives \<open>-1\<close> and the data is \<^verbatim>\<open>undefined\<close>:
  \<^verbatim>\<open>{ ...undefined, name: newName }\<close> is an object with the one field \<^verbatim>\<open>name\<close>, so
  the array returned by \<^verbatim>\<open>renameQuestionById\<close> is not a \<^verbatim>\<open>Question[]\<close>.
\<close>

definition renameQuestionById :: "Question list \<Rightarrow> int \<Rightarrow> string \<Rightarrow> fault + Question list" where
  "renameQuestionById questions targetId newName =
     (let foundQuestion = findIndex (\<lambda>question. id_q question = targetId) questions;
          foundQuestionData = index questions foundQuestion;
          firstHalf = slice questions 0 foundQuestion;
          secondHalf = slice_from questions (foundQuestion + 1)
      in case foundQuestionData of
           None \<Rightarrow> Inl IllTyped
         | Some d \<Rightarrow> Inr ((firstHalf @ [d\<lparr>name := newName\<rparr>]) @ secondHalf))"

text \<open>
  \<^verbatim>\<open>changeQuestionTypeById\<close> reads \<^verbatim>\<open>foundQuestionData.type\<close> in its condition, which
  raises when the data is \<^verbatim>\<open>undefined\<close>.
\<close>

definition changeQuestionTypeById ::
  "Question list \<Rightarrow> int \<Rightarrow> QuestionType \<Rightarrow> fault + Question list" where
  "changeQuestionTypeById questions targetId newQuestionType =
     (let foundQuestion = findIndex (\<lambda>question. id_q question = targetId) questions;
          foundQuestionData = index questions foundQuestion;
          firstHalf = slice questions 0 foundQuestion;
          secondHalf = slice_from questions (foundQuestion + 1)
      in case foundQuestionData of
           None \<Rightarrow> Inl TypeError
         | Some d \<Rightarrow>
             if type_q d = multiple_choice_question \<and> type_q d \<noteq> newQuestionType
             then Inr ((firstHalf @ [d\<lparr>type_q := newQuestionType, options := []\<rparr>]) @ secondHalf)
             else Inr ((firstHalf @ [d\<lparr>type_q := newQuestionType\<rparr>]) @ secondHalf))"

text \<open>
  \<^verbatim>\<open>a[i] = v\<close> on a copy of the options, for an integer \<open>i\<close>: inside the array the
  element is replaced; at \<open>i = length\<close> the array grows by one; beyond that it grows
  with holes, which are not strings (\<open>None\<close>); a negative \<open>i\<close> names a property that
  is not an element, and the elements stay as they are.
\<close>

definition assign_index :: "string list \<Rightarrow> int \<Rightarrow> string \<Rightarrow> string list option" where
  "assign_index a i v =
     (if i < 0 then Some a
      else if i < int (length a) then Some (a[nat i := v])
      else if i = int (length a) then Some (a @ [v])
      else None)"

text \<open>
  \<^verbatim>\<open>editOption\<close> reads \<^verbatim>\<open>foundQuestionData.options\<close> in both branches, which raises
  when the data is \<^verbatim>\<open>undefined\<close>. In the second branch the element at
  \<^verbatim>\<open>firstHalf[foundQuestion]\<close> is the object just appended, and its options are a fresh
  copy, so the assignment does not reach the input array.
\<close>

definition editOption :: "Question list \<Rightarrow> int \<Rightarrow> int \<Rightarrow> string \<Rightarrow> fault + Question list" where
  "editOption questions targetId targetOptionIndex newOption =
     (let foundQuestion = findIndex (\<lambda>question. id_q question = targetId) questions;
          foundQuestionData = index questions foundQuestion;
          firstHalf = slice questions 0 foundQuestion;
          secondHalf = slice_from questions (foundQuestion + 1)
      in case foundQuestionData of
           None \<Rightarrow> Inl TypeError
         | Some d \<Rightarrow>
             if targetOptionIndex = - 1
             then Inr ((firstHalf @ [d\<lparr>options := options d @ [newOption]\<rparr>]) @ secondHalf)
             else (case assign_index (options d) targetOptionIndex newOption of
                     None \<Rightarrow> Inl IllTyped
                   | Some opts \<Rightarrow> Inr ((firstHalf @ [d\<lparr>options := opts\<rparr>]) @ secondHalf)))"

text \<open>
  Modelled from the spec: \<^verbatim>\<open>duplicateQuestion\<close> is imported from \<^verbatim>\<open>./objects\<close>, which
  is not among the sources. The specification says of the duplicate that it "has the
  supplied new id and is identical to the original in every other field".
\<close>

definition duplicateQuestion :: "int \<Rightarrow> Question \<Rightarrow> Question" where
  "duplicateQuestion newId oldQuestion = oldQuestion\<lparr>id_q := newId\<rparr>"

text \<open>
  \<^verbatim>\<open>duplicateQuestionInArray\<close>: \<^verbatim>\<open>{ ...foundQuestionData }\<close> is a copy with the same
  fields; of \<^verbatim>\<open>undefined\<close> it is the empty object, which is not a \<^verbatim>\<open>Question\<close>.
\<close>

definition duplicateQuestionInArray :: "Question list \<Rightarrow> int \<Rightarrow> int \<Rightarrow> fault + Question list" where
  "duplicateQuestionInArray questions targetId newId =
     (let foundQuestion = findIndex (\<lambda>question. id_q question = targetId) questions;
          foundQuestionData = index questions foundQuestion;
          firstHalf = slice questions 0 foundQuestion;
          secondHalf = slice_from questions (foundQuestion + 1)
      in case foundQuestionData of
           None \<Rightarrow> Inl IllTyped
         | Some d \<Rightarrow> Inr ((firstHalf @ [d, duplicateQuestion newId d]) @ secondHalf))"

section \<open>Sample data\<close>

text \<open>
  The four questions of the table in the documentation of \<^verbatim>\<open>toCSV\<close>
  (\<^verbatim>\<open>1,Addition,0,1,true\<close>, \<^verbatim>\<open>2,Letters,0,1,false\<close>, \<^verbatim>\<open>5,Colors,3,1,true\<close>,
  \<^verbatim>\<open>9,Shapes,3,2,false\<close>), used to run the theorems below on concrete arrays.
\<close>

definition addition :: Question where
  "addition = \<lparr>id_q = 1, name = ''Addition'', type_q = short_answer_question,
     body = ''What is 2+2?'', expected = ''4'', options = [], points = 1, published = True\<rparr>"

definition letters :: Question where
  "letters = \<lparr>id_q = 2, name = ''Letters'', type_q = short_answer_question,
     body = ''What is the last letter of the English alphabet?'', expected = ''Z'',
     options = [], points = 1, published = False\<rparr>"

definition colors :: Question where
  "colors = \<lparr>id_q = 5, name = ''Colors'', type_q = multiple_choice_question,
     body = ''Which of these is a color?'', expected = ''red'',
     options = [''red'', ''apple'', ''firetruck''], points = 1, published = True\<rparr>"

definition shapes :: Question where
  "shapes = \<lparr>id_q = 9, name = ''Shapes'', type_q = multiple_choice_question,
     body = ''What shape can you make with one line?'', expected = ''circle'',
     options = [''square'', ''triangle'', ''circle''], points = 2, published = False\<rparr>"

text \<open>A question with nothing in its body, expected answer and options.\<close>

definition blank :: Question where
  "blank = \<lparr>id_q = 3, name = ''Blank'', type_q = short_answer_question,
     body = [], expected = [], options = [], points = 1, published = False\<rparr>"

lemmas samples = addition_def letters_def colors_def shapes_def blank_def

section \<open>The array primitives at a unique target\<close>

text \<open>
  When exactly one element satisfies \<open>p\<close>, \<^const>\<open>findIndex\<close> returns its position, the
  indexing succeeds, the two slices are the elements before and after it, and the rebuilt
  array is the input with that one position replaced.
\<close>

lemma findIndex_from_unique:
  "length (filter p xs) = 1 \<Longrightarrow>
     \<exists>n<length xs. findIndex_from k p xs = k + int n \<and> p (xs ! n)
        \<and> (\<forall>j<length xs. j \<noteq> n \<longrightarrow> \<not> p (xs ! j))"
proof (induction xs arbitrary: k)
  case Nil
  then show ?case by simp
next
  case (Cons x xs)
  show ?case
  proof (cases "p x")
    case True
    with Cons.prems have "filter p xs = []" by simp
    then have none: "\<forall>y\<in>set xs. \<not> p y" by (simp add: filter_empty_conv)
    have "\<forall>j<length (x # xs). j \<noteq> 0 \<longrightarrow> \<not> p ((x # xs) ! j)"
    proof (intro allI impI)
      fix j assume "j < length (x # xs)" "j \<noteq> 0"
      then obtain m where "j = Suc m" "m < length xs" by (cases j) auto
      with none show "\<not> p ((x # xs) ! j)" by simp
    qed
    with True show ?thesis by (intro exI [of _ 0]) simp
  next
    case False
    with Cons.prems have "length (filter p xs) = 1" by simp
    from Cons.IH [OF this, of "k + 1"] obtain n where n: "n < length xs"
      "findIndex_from (k + 1) p xs = k + 1 + int n" "p (xs ! n)"
      "\<forall>j<length xs. j \<noteq> n \<longrightarrow> \<not> p (xs ! j)" by blast
    have "\<forall>j<length (x # xs). j \<noteq> Suc n \<longrightarrow> \<not> p ((x # xs) ! j)"
    proof (intro allI impI)
      fix j assume j: "j < length (x # xs)" "j \<noteq> Suc n"
      show "\<not> p ((x # xs) ! j)"
      proof (cases j)
        case 0
        with False show ?thesis by simp
      next
        case (Suc m)
        with j n(4) show ?thesis by simp
      qed
    qed
    with False n show ?thesis by (intro exI [of _ "Suc n"]) simp
  qed
qed

lemma unique_target:
  assumes "length (filter p xs) = 1"
  obtains n where "n < length xs" and "findIndex p xs = int n" and "p (xs ! n)"
    and "\<forall>j<length xs. j \<noteq> n \<longrightarrow> \<not> p (xs ! j)"
  using findIndex_from_unique [OF assms, of 0] unfolding findIndex_def by auto

lemma index_inside: "n < length xs \<Longrightarrow> index xs (int n) = Some (xs ! n)"
  by (simp add: index_def)

lemma slice_prefix: "n < length xs \<Longrightarrow> slice xs 0 (int n) = take n xs"
  by (simp add: slice_def relative_bound_def Let_def)

lemma slice_from_suffix: "n < length xs \<Longrightarrow> slice_from xs (int n + 1) = drop (Suc n) xs"
proof -
  assume "n < length xs"
  then have "relative_bound (int n + 1) (length xs) = Suc n"
    by (simp add: relative_bound_def nat_add_distrib)
  then show ?thesis by (simp add: slice_from_def)
qed

lemma rebuild_is_update:
  "n < length xs \<Longrightarrow> (take n xs @ [y]) @ drop (Suc n) xs = xs[n := y]"
  by (simp add: upd_conv_take_nth_drop)

lemma update_pointwise:
  assumes "n < length xs" and "p (xs ! n)" and "\<forall>j<length xs. j \<noteq> n \<longrightarrow> \<not> p (xs ! j)"
  shows "\<forall>j<length xs. xs[n := f (xs ! n)] ! j = (if p (xs ! j) then f (xs ! j) else xs ! j)"
  using assms by (auto simp: nth_list_update)

text \<open>
  When no element has the id, \<^const>\<open>findIndex\<close> returns \<open>-1\<close>, the indexing gives
  \<^verbatim>\<open>undefined\<close>, and no by-id update returns an array of questions.
\<close>

lemma findIndex_from_absent: "\<forall>x\<in>set xs. \<not> p x \<Longrightarrow> findIndex_from k p xs = - 1"
  by (induction xs arbitrary: k) simp_all

lemma index_absent: "\<forall>x\<in>set xs. \<not> p x \<Longrightarrow> index xs (findIndex p xs) = None"
  by (simp add: findIndex_def findIndex_from_absent index_def)

lemma absent_target_faults:
  assumes "\<forall>q\<in>set qs. id_q q \<noteq> targetId"
  shows "renameQuestionById qs targetId newName = Inl IllTyped"
    and "changeQuestionTypeById qs targetId newQuestionType = Inl TypeError"
    and "editOption qs targetId targetOptionIndex newOption = Inl TypeError"
    and "duplicateQuestionInArray qs targetId newId = Inl IllTyped"
  using index_absent [of qs "\<lambda>q. id_q q = targetId"] assms
  by (simp_all add: renameQuestionById_def changeQuestionTypeById_def editOption_def
      duplicateQuestionInArray_def Let_def)

text \<open>Arrays of three elements, for the concrete runs.\<close>

lemma three_elements: "length r = 3 \<Longrightarrow> r = [r ! 0, r ! 1, r ! 2]"
  by (cases r; cases "tl r"; cases "tl (tl r)") (auto simp: numeral_3_eq_3 numeral_2_eq_2)

lemma below_three: "(\<forall>j<3. P (j::nat)) \<longleftrightarrow> P 0 \<and> P 1 \<and> P 2"
  by (auto simp: numeral_3_eq_3 numeral_2_eq_2 less_Suc_eq)

section \<open>Point updates by id\<close>

text \<open>
  Claim C5. For an array with exactly one question of id \<open>targetId\<close>,
  \<^verbatim>\<open>renameQuestionById\<close> returns an array of the same length in which, position by
  position, the targeted question is the original with only its \<open>name\<close> replaced by
  \<open>newName\<close>, and every other question is the one of the input.
\<close>

theorem renameQuestionById_changes_only_name:
  assumes "length (filter (\<lambda>q. id_q q = targetId) qs) = 1"
  shows "\<exists>r. renameQuestionById qs targetId newName = Inr r \<and> length r = length qs \<and>
           (\<forall>j<length qs. r ! j = (if id_q (qs ! j) = targetId
                                    then (qs ! j)\<lparr>name := newName\<rparr> else qs ! j))"
proof -
  from assms obtain n where n: "n < length qs"
    "findIndex (\<lambda>q. id_q q = targetId) qs = int n" "id_q (qs ! n) = targetId"
    "\<forall>j<length qs. j \<noteq> n \<longrightarrow> id_q (qs ! j) \<noteq> targetId"
    by (rule unique_target)
  have "renameQuestionById qs targetId newName = Inr (qs[n := (qs ! n)\<lparr>name := newName\<rparr>])"
    using n(1) by (simp add: renameQuestionById_def Let_def n(2) index_inside slice_prefix
        slice_from_suffix upd_conv_take_nth_drop)
  moreover have "\<forall>j<length qs. qs[n := (qs ! n)\<lparr>name := newName\<rparr>] ! j =
      (if id_q (qs ! j) = targetId then (qs ! j)\<lparr>name := newName\<rparr> else qs ! j)"
    using update_pointwise [of n qs "\<lambda>q. id_q q = targetId" "\<lambda>q. q\<lparr>name := newName\<rparr>"] n
    by simp
  ultimately show ?thesis by simp
qed

theorem renameQuestionById_changes_only_name_witness:
  "length (filter (\<lambda>q. id_q q = 5) [addition, colors, shapes]) = 1 \<and>
   renameQuestionById [addition, colors, shapes] 5 ''Colours''
     = Inr [addition, colors\<lparr>name := ''Colours''\<rparr>, shapes]"
proof -
  have h: "length (filter (\<lambda>q. id_q q = 5) [addition, colors, shapes]) = 1"
    by (simp add: samples)
  from renameQuestionById_changes_only_name [OF h, of "''Colours''"]
  obtain r where r: "renameQuestionById [addition, colors, shapes] 5 ''Colours'' = Inr r"
    "length r = 3" "r ! 0 = addition" "r ! 1 = colors\<lparr>name := ''Colours''\<rparr>" "r ! 2 = shapes"
    by (auto simp: below_three samples)
  from three_elements [OF r(2)] r(3-5) have "r = [addition, colors\<lparr>name := ''Colours''\<rparr>, shapes]"
    by simp
  with h r(1) show ?thesis by simp
qed

text \<open>
  Claim C3. For an array with exactly one question of id \<open>targetId\<close>,
  \<^verbatim>\<open>changeQuestionTypeById\<close> returns an array of the same length in which the targeted
  question has the type \<open>newQuestionType\<close>; its options are the empty list when its old
  type was \<^verbatim>\<open>multiple_choice_question\<close> and the new type is another one, and are kept
  otherwise; its other fields and every other question are those of the input, position
  by position.
\<close>

theorem changeQuestionTypeById_resets_options:
  assumes "length (filter (\<lambda>q. id_q q = targetId) qs) = 1"
  shows "\<exists>r. changeQuestionTypeById qs targetId newQuestionType = Inr r \<and> length r = length qs \<and>
           (\<forall>j<length qs. r ! j =
              (if id_q (qs ! j) = targetId
               then (qs ! j)\<lparr>type_q := newQuestionType,
                              options := (if type_q (qs ! j) = multiple_choice_question
                                             \<and> newQuestionType \<noteq> multiple_choice_question
                                          then [] else options (qs ! j))\<rparr>
               else qs ! j))"
proof -
  let ?f = "\<lambda>q. q\<lparr>type_q := newQuestionType,
                    options := (if type_q q = multiple_choice_question
                                   \<and> newQuestionType \<noteq> multiple_choice_question
                                then [] else options q)\<rparr>"
  from assms obtain n where n: "n < length qs"
    "findIndex (\<lambda>q. id_q q = targetId) qs = int n" "id_q (qs ! n) = targetId"
    "\<forall>j<length qs. j \<noteq> n \<longrightarrow> id_q (qs ! j) \<noteq> targetId"
    by (rule unique_target)
  have "changeQuestionTypeById qs targetId newQuestionType = Inr (qs[n := ?f (qs ! n)])"
    using n(1) by (auto simp add: changeQuestionTypeById_def Let_def n(2) index_inside
        slice_prefix slice_from_suffix upd_conv_take_nth_drop)
  moreover have "\<forall>j<length qs. qs[n := ?f (qs ! n)] ! j =
      (if id_q (qs ! j) = targetId then ?f (qs ! j) else qs ! j)"
    using update_pointwise [of n qs "\<lambda>q. id_q q = targetId" ?f] n by simp
  ultimately show ?thesis by simp
qed

theorem changeQuestionTypeById_resets_options_witness:
  "length (filter (\<lambda>q. id_q q = 5) [addition, colors, shapes]) = 1 \<and>
   changeQuestionTypeById [addition, colors, shapes] 5 short_answer_question
     = Inr [addition, colors\<lparr>type_q := short_answer_question, options := []\<rparr>, shapes]"
proof -
  have h: "length (filter (\<lambda>q. id_q q = 5) [addition, colors, shapes]) = 1"
    by (simp add: samples)
  from changeQuestionTypeById_resets_options [OF h, of short_answer_question]
  obtain r where r: "changeQuestionTypeById [addition, colors, shapes] 5 short_answer_question = Inr r"
    "length r = 3" "r ! 0 = addition"
    "r ! 1 = colors\<lparr>type_q := short_answer_question, options := []\<rparr>" "r ! 2 = shapes"
    by (auto simp: below_three samples)
  from three_elements [OF r(2)] r(3-5)
  have "r = [addition, colors\<lparr>type_q := short_answer_question, options := []\<rparr>, shapes]"
    by simp
  with h r(1) show ?thesis by simp
qed

text \<open>
  Claim C4. For an array with exactly one question of id \<open>targetId\<close>: \<^verbatim>\<open>editOption\<close>
  with index \<open>-1\<close> returns the array in which \<open>newOption\<close> is appended to the options of
  that question; with an index \<open>i\<close> inside that question's options it returns the array in
  which exactly the option at \<open>i\<close> is replaced by \<open>newOption\<close>. In both cases the other
  fields of the question and every other question are those of the input, position by
  position.
\<close>

theorem editOption_appends_or_replaces:
  assumes "length (filter (\<lambda>q. id_q q = targetId) qs) = 1"
  shows "(\<exists>r. editOption qs targetId (- 1) newOption = Inr r \<and> length r = length qs \<and>
            (\<forall>j<length qs. r ! j =
               (if id_q (qs ! j) = targetId
                then (qs ! j)\<lparr>options := options (qs ! j) @ [newOption]\<rparr>
                else qs ! j)))
       \<and> (\<forall>k<length qs. id_q (qs ! k) = targetId \<longrightarrow>
            (\<forall>i<length (options (qs ! k)).
               \<exists>r. editOption qs targetId (int i) newOption = Inr r \<and> length r = length qs \<and>
                 (\<forall>j<length qs. r ! j =
                    (if id_q (qs ! j) = targetId
                     then (qs ! j)\<lparr>options := (options (qs ! j))[i := newOption]\<rparr>
                     else qs ! j))))"
proof -
  from assms obtain n where n: "n < length qs"
    "findIndex (\<lambda>q. id_q q = targetId) qs = int n" "id_q (qs ! n) = targetId"
    "\<forall>j<length qs. j \<noteq> n \<longrightarrow> id_q (qs ! j) \<noteq> targetId"
    by (rule unique_target)
  have append: "\<exists>r. editOption qs targetId (- 1) newOption = Inr r \<and> length r = length qs \<and>
            (\<forall>j<length qs. r ! j =
               (if id_q (qs ! j) = targetId
                then (qs ! j)\<lparr>options := options (qs ! j) @ [newOption]\<rparr>
                else qs ! j))"
  proof -
    let ?f = "\<lambda>q. q\<lparr>options := options q @ [newOption]\<rparr>"
    have "editOption qs targetId (- 1) newOption = Inr (qs[n := ?f (qs ! n)])"
      using n(1) by (simp add: editOption_def Let_def n(2) index_inside
          slice_prefix slice_from_suffix upd_conv_take_nth_drop)
    moreover have "\<forall>j<length qs. qs[n := ?f (qs ! n)] ! j =
        (if id_q (qs ! j) = targetId then ?f (qs ! j) else qs ! j)"
      using update_pointwise [of n qs "\<lambda>q. id_q q = targetId" ?f] n by simp
    ultimately show ?thesis by simp
  qed
  have replace: "\<exists>r. editOption qs targetId (int i) newOption = Inr r \<and> length r = length qs \<and>
                 (\<forall>j<length qs. r ! j =
                    (if id_q (qs ! j) = targetId
                     then (qs ! j)\<lparr>options := (options (qs ! j))[i := newOption]\<rparr>
                     else qs ! j))"
    if k: "k < length qs" "id_q (qs ! k) = targetId" and i: "i < length (options (qs ! k))"
    for k i
  proof -
    let ?f = "\<lambda>q. q\<lparr>options := (options q)[i := newOption]\<rparr>"
    from k n(4) have "k = n" by blast
    with i have "assign_index (options (qs ! n)) (int i) newOption
        = Some ((options (qs ! n))[i := newOption])"
      by (simp add: assign_index_def)
    then have "editOption qs targetId (int i) newOption = Inr (qs[n := ?f (qs ! n)])"
      using n(1) by (simp add: editOption_def Let_def n(2) index_inside
          slice_prefix slice_from_suffix upd_conv_take_nth_drop)
    moreover have "\<forall>j<length qs. qs[n := ?f (qs ! n)] ! j =
        (if id_q (qs ! j) = targetId then ?f (qs ! j) else qs ! j)"
      using update_pointwise [of n qs "\<lambda>q. id_q q = targetId" ?f] n by simp
    ultimately show ?thesis by simp
  qed
  from append replace show ?thesis by blast
qed

theorem editOption_appends_or_replaces_witness:
  "length (filter (\<lambda>q. id_q q = 5) [addition, colors, shapes]) = 1 \<and>
   editOption [addition, colors, shapes] 5 (- 1) ''blue''
     = Inr [addition, colors\<lparr>options := [''red'', ''apple'', ''firetruck'', ''blue'']\<rparr>, shapes] \<and>
   editOption [addition, colors, shapes] 5 1 ''blue''
     = Inr [addition, colors\<lparr>options := [''red'', ''blue'', ''firetruck'']\<rparr>, shapes]"
proof -
  let ?qs = "[addition, colors, shapes]"
  have h: "length (filter (\<lambda>q. id_q q = 5) ?qs) = 1"
    by (simp add: samples)
  note t = editOption_appends_or_replaces [OF h, of "''blue''"]
  from t obtain r where r: "editOption ?qs 5 (- 1) ''blue'' = Inr r"
    "length r = 3" "r ! 0 = addition"
    "r ! 1 = colors\<lparr>options := [''red'', ''apple'', ''firetruck'', ''blue'']\<rparr>" "r ! 2 = shapes"
    by (auto simp: below_three samples)
  from three_elements [OF r(2)] r(3-5)
  have a: "r = [addition, colors\<lparr>options := [''red'', ''apple'', ''firetruck'', ''blue'']\<rparr>, shapes]"
    by simp
  have k1: "(1::nat) < length ?qs" by simp
  have id1: "id_q (?qs ! 1) = 5" by (simp add: samples)
  have i1: "(1::nat) < length (options (?qs ! 1))" by (simp add: samples)
  from t [THEN conjunct2, rule_format, OF k1 id1 i1]
  obtain s where s: "editOption ?qs 5 1 ''blue'' = Inr s"
    "length s = 3" "s ! 0 = addition"
    "s ! 1 = colors\<lparr>options := [''red'', ''blue'', ''firetruck'']\<rparr>" "s ! 2 = shapes"
    by (auto simp: below_three samples)
  from three_elements [OF s(2)] s(3-5)
  have b: "s = [addition, colors\<lparr>options := [''red'', ''blue'', ''firetruck'']\<rparr>, shapes]"
    by simp
  from h r(1) a s(1) b show ?thesis by simp
qed

text \<open>
  Claim C2. For an array with exactly one question of id \<open>targetId\<close>,
  \<^verbatim>\<open>duplicateQuestionInArray\<close> returns an array one element longer: the input up to and
  including the targeted question, then the duplicate, which is the original with the id
  \<open>newId\<close> and every other field as it was, then the rest of the input in its order.
\<close>

theorem duplicateQuestionInArray_inserts_after:
  assumes "length (filter (\<lambda>q. id_q q = targetId) qs) = 1"
  shows "\<exists>k<length qs. id_q (qs ! k) = targetId \<and>
           (\<exists>r. duplicateQuestionInArray qs targetId newId = Inr r \<and>
                length r = length qs + 1 \<and>
                r = take (Suc k) qs @ [(qs ! k)\<lparr>id_q := newId\<rparr>] @ drop (Suc k) qs)"
proof -
  from assms obtain n where n: "n < length qs"
    "findIndex (\<lambda>q. id_q q = targetId) qs = int n" "id_q (qs ! n) = targetId"
    by (rule unique_target)
  have "duplicateQuestionInArray qs targetId newId
      = Inr (take (Suc n) qs @ [(qs ! n)\<lparr>id_q := newId\<rparr>] @ drop (Suc n) qs)"
    using n(1) by (simp add: duplicateQuestionInArray_def duplicateQuestion_def Let_def n(2)
        index_inside slice_prefix slice_from_suffix take_Suc_conv_app_nth)
  with n(1,3) show ?thesis by auto
qed

theorem duplicateQuestionInArray_inserts_after_witness:
  "length (filter (\<lambda>q. id_q q = 5) [addition, colors, shapes]) = 1 \<and>
   duplicateQuestionInArray [addition, colors, shapes] 5 6
     = Inr [addition, colors, colors\<lparr>id_q := 6\<rparr>, shapes]"
proof -
  let ?qs = "[addition, colors, shapes]"
  have h: "length (filter (\<lambda>q. id_q q = 5) ?qs) = 1"
    by (simp add: samples)
  from duplicateQuestionInArray_inserts_after [OF h, of 6]
  obtain k where k: "k < length ?qs" "id_q (?qs ! k) = 5"
    "duplicateQuestionInArray ?qs 5 6
       = Inr (take (Suc k) ?qs @ [(?qs ! k)\<lparr>id_q := 6\<rparr>] @ drop (Suc k) ?qs)"
    by auto
  from k(1,2) have "k = 1"
    by (auto simp: samples less_Suc_eq numeral_3_eq_3)
  with k(3) h show ?thesis by simp
qed

section \<open>Lookup and removal\<close>

text \<open>
  Claim C8. If some question of the array has the id, \<^verbatim>\<open>findQuestion\<close> returns the first
  such question (the one at the least position whose id matches); otherwise it returns
  \<^verbatim>\<open>null\<close>, the value \<open>None\<close> of the model, and raises nothing.
\<close>

theorem findQuestion_first_or_null:
  "(if \<exists>q\<in>set qs. id_q q = ident
    then \<exists>k<length qs. findQuestion qs ident = Some (qs ! k) \<and> id_q (qs ! k) = ident
           \<and> (\<forall>j<k. id_q (qs ! j) \<noteq> ident)
    else findQuestion qs ident = None)"
proof (cases "\<exists>q\<in>set qs. id_q q = ident")
  case True
  then obtain q where found: "List.find (\<lambda>q. id_q q = ident) qs = Some q"
    by (cases "List.find (\<lambda>q. id_q q = ident) qs") (auto simp: find_None_iff)
  then obtain k where k: "k < length qs" "id_q (qs ! k) = ident" "q = qs ! k"
    "\<forall>j<k. id_q (qs ! j) \<noteq> ident"
    unfolding find_Some_iff by blast
  from found k(3) have "findQuestion qs ident = Some (qs ! k)"
    by (simp add: findQuestion_def)
  with k(1,2,4) have "\<exists>k<length qs. findQuestion qs ident = Some (qs ! k)
      \<and> id_q (qs ! k) = ident \<and> (\<forall>j<k. id_q (qs ! j) \<noteq> ident)"
    by blast
  with True show ?thesis by simp
next
  case False
  then have "List.find (\<lambda>q. id_q q = ident) qs = None"
    by (simp add: find_None_iff)
  with False show ?thesis by (simp add: findQuestion_def)
qed

theorem findQuestion_first_or_null_witness:
  "findQuestion [addition, colors, colors\<lparr>points := 3\<rparr>] 5 = Some colors \<and>
   findQuestion [addition, colors, colors\<lparr>points := 3\<rparr>] 9 = None"
proof -
  let ?qs = "[addition, colors, colors\<lparr>points := 3\<rparr>]"
  have present: "\<exists>q\<in>set ?qs. id_q q = 5" by (simp add: samples)
  have absent: "\<not> (\<exists>q\<in>set ?qs. id_q q = 9)" by (simp add: samples)
  from findQuestion_first_or_null [of ?qs 5] present
  obtain k where k: "k < length ?qs" "findQuestion ?qs 5 = Some (?qs ! k)"
    "\<forall>j<k. id_q (?qs ! j) \<noteq> 5"
    by (auto simp del: set_simps)
  from k(1) have "k = 0 \<or> k = 1 \<or> k = 2"
    by (auto simp: less_Suc_eq numeral_3_eq_3 numeral_2_eq_2)
  moreover have "k \<noteq> 0"
  proof
    assume "k = 0"
    with k(2) show False by (simp add: findQuestion_def samples)
  qed
  moreover have "k \<noteq> 2"
  proof
    assume "k = 2"
    then have "(1::nat) < k" by simp
    with k(3) have "id_q (?qs ! 1) \<noteq> 5" by blast
    then show False by (simp add: samples)
  qed
  ultimately have "k = 1" by blast
  with k(2) have a: "findQuestion ?qs 5 = Some colors" by simp
  from findQuestion_first_or_null [of ?qs 9] absent
  have b: "findQuestion ?qs 9 = None" by (simp only: if_False)
  from a b show ?thesis by simp
qed

text \<open>
  Removing the question at position \<open>k\<close> of an array with pairwise distinct ids leaves
  the questions before and after that position.
\<close>

lemma removeQuestion_at:
  assumes "distinct (map id_q qs)" and "k < length qs"
  shows "removeQuestion qs (id_q (qs ! k)) = take k qs @ drop (Suc k) qs"
proof -
  have split: "qs = take k qs @ qs ! k # drop (Suc k) qs"
    using assms(2) by (rule id_take_nth_drop)
  with assms(1) have d: "distinct (map id_q (take k qs) @ id_q (qs ! k) # map id_q (drop (Suc k) qs))"
    by (metis list.simps(9) map_append)
  then have "id_q (qs ! k) \<notin> id_q ` set (take k qs)"
    and "id_q (qs ! k) \<notin> id_q ` set (drop (Suc k) qs)"
    by simp_all
  then have before: "\<forall>q\<in>set (take k qs). id_q q \<noteq> id_q (qs ! k)"
    and after: "\<forall>q\<in>set (drop (Suc k) qs). id_q q \<noteq> id_q (qs ! k)"
    by (metis imageI)+
  have "removeQuestion qs (id_q (qs ! k))
      = filter (\<lambda>q. id_q q \<noteq> id_q (qs ! k)) (take k qs @ qs ! k # drop (Suc k) qs)"
    unfolding removeQuestion_def using split by simp
  also have "\<dots> = take k qs @ drop (Suc k) qs"
    using before after by simp
  finally show ?thesis .
qed

text \<open>
  Claim C6. For an array whose ids are pairwise distinct and a question \<open>q\<close> at position
  \<open>k\<close>, putting \<open>q\<close> back at position \<open>k\<close> of \<^verbatim>\<open>removeQuestion(qs, q.id)\<close> gives
  the array \<open>qs\<close> again.
\<close>

theorem removeQuestion_reinsert:
  assumes "distinct (map id_q qs)" and "k < length qs"
  shows "(let r = removeQuestion qs (id_q (qs ! k)) in take k r @ [qs ! k] @ drop k r) = qs"
proof -
  have "removeQuestion qs (id_q (qs ! k)) = take k qs @ drop (Suc k) qs"
    using assms by (rule removeQuestion_at)
  moreover have "length (take k qs) = k" using assms(2) by simp
  ultimately show ?thesis
    using assms(2) by (simp add: Let_def id_take_nth_drop [symmetric])
qed

theorem removeQuestion_reinsert_witness:
  "distinct (map id_q [addition, colors, shapes]) \<and> (1::nat) < length [addition, colors, shapes] \<and>
   removeQuestion [addition, colors, shapes] 5 = [addition, shapes] \<and>
   take 1 [addition, shapes] @ [colors] @ drop 1 [addition, shapes] = [addition, colors, shapes]"
proof -
  let ?qs = "[addition, colors, shapes]"
  have d: "distinct (map id_q ?qs)" by (simp add: samples)
  have k: "(1::nat) < length ?qs" by simp
  have r: "removeQuestion ?qs 5 = [addition, shapes]"
    by (simp add: removeQuestion_def samples)
  from removeQuestion_reinsert [OF d k] r
  have "take 1 [addition, shapes] @ [colors] @ drop 1 [addition, shapes] = ?qs"
    by (simp add: samples)
  with d k r show ?thesis by blast
qed

section \<open>Homogeneity\<close>

text \<open>The loop of \<^verbatim>\<open>sameType\<close> keeps its flag exactly while every type seen is the first one.\<close>

lemma sameType_fold:
  "fold (\<lambda>question isSame. if type_q question \<noteq> t \<and> isSame then False else isSame) qs b
     = (b \<and> (\<forall>q\<in>set qs. type_q q = t))"
  by (induction qs arbitrary: b) auto

text \<open>
  Claim C9. \<^verbatim>\<open>sameType\<close> is true exactly when all elements of the array have the same
  \<open>type\<close>; it is true of the empty array and of every array of one element.
\<close>

theorem sameType_iff_one_type:
  "(sameType qs \<longleftrightarrow> (\<forall>a\<in>set qs. \<forall>b\<in>set qs. type_q a = type_q b))
   \<and> sameType [] \<and> sameType [q]"
proof -
  have "sameType qs \<longleftrightarrow> (\<forall>a\<in>set qs. \<forall>b\<in>set qs. type_q a = type_q b)"
  proof (cases qs)
    case Nil
    then show ?thesis by (simp add: sameType_def)
  next
    case (Cons x xs)
    then have "sameType qs \<longleftrightarrow> (\<forall>q\<in>set qs. type_q q = type_q x)"
      unfolding sameType_def Let_def sameType_fold by simp
    also have "\<dots> \<longleftrightarrow> (\<forall>a\<in>set qs. \<forall>b\<in>set qs. type_q a = type_q b)"
      using Cons by auto
    finally show ?thesis .
  qed
  moreover have "sameType []" by (simp add: sameType_def)
  moreover have "sameType [q]" by (simp add: sameType_def)
  ultimately show ?thesis by simp
qed

theorem sameType_iff_one_type_witness:
  "sameType [colors, shapes] \<and> \<not> sameType [addition, colors]"
proof -
  have a: "\<forall>a\<in>set [colors, shapes]. \<forall>b\<in>set [colors, shapes]. type_q a = type_q b"
    by (simp add: samples)
  have b: "\<not> (\<forall>a\<in>set [addition, colors]. \<forall>b\<in>set [addition, colors]. type_q a = type_q b)"
    by (simp add: samples)
  from sameType_iff_one_type [of "[colors, shapes]" colors, THEN conjunct1] a
  have "sameType [colors, shapes]" by (rule iffD2)
  moreover from sameType_iff_one_type [of "[addition, colors]" colors, THEN conjunct1] b
  have "\<not> sameType [addition, colors]" by blast
  ultimately show ?thesis by (rule conjI)
qed

section \<open>Serialization\<close>




section \<open>Filtering\<close>

text \<open>
  Claim C10. \<^verbatim>\<open>getNonEmptyQuestions\<close> keeps, in their order, exactly the questions that
  are not empty: a question is dropped only when its body and its expected answer are both
  the empty string and its options are the empty array.
\<close>

theorem getNonEmptyQuestions_keeps_nonempty:
  "getNonEmptyQuestions qs
     = filter (\<lambda>q. \<not> (body q = '''' \<and> expected q = '''' \<and> options q = [])) qs"
  by (simp add: getNonEmptyQuestions_def)

theorem getNonEmptyQuestions_keeps_nonempty_witness:
  "getNonEmptyQuestions [addition, blank, blank\<lparr>options := [''yes'', ''no'']\<rparr>, colors]
     = [addition, blank\<lparr>options := [''yes'', ''no'']\<rparr>, colors]"
  using getNonEmptyQuestions_keeps_nonempty
          [of "[addition, blank, blank\<lparr>options := [''yes'', ''no'']\<rparr>, colors]"]
  by (simp add: samples)

section \<open>Aggregation\<close>

subsection \<open>Rounding to a double\<close>

text \<open>
  The exponent is \<open>0\<close> below \<open>2\<^sup>5\<^sup>3\<close> and otherwise one more than that of the half:
  it is the \<open>s\<close> with \<open>2\<^sup>5\<^sup>2\<^sup>+\<^sup>s \<le> a < 2\<^sup>5\<^sup>3\<^sup>+\<^sup>s\<close>, so the significand
  \<open>a div 2\<^sup>s\<close> has at most \<open>53\<close> bits, and exactly \<open>53\<close> when \<open>s\<close> is positive.
\<close>

lemma ulp_exponent_small: "a < 2 ^ 53 \<Longrightarrow> ulp_exponent a = 0"
  by (subst ulp_exponent.simps) simp

lemma ulp_exponent_large: "\<not> a < 2 ^ 53 \<Longrightarrow> ulp_exponent a = Suc (ulp_exponent (a div 2))"
  by (subst ulp_exponent.simps) simp

lemma ulp_exponent_upper: "a < 2 ^ (53 + ulp_exponent a)"
proof (induction a rule: ulp_exponent.induct)
  case (1 a)
  show ?case
  proof (cases "a < 2 ^ 53")
    case True
    then show ?thesis by (simp add: ulp_exponent_small)
  next
    case False
    define N :: nat where "N = 2 ^ (53 + ulp_exponent (a div 2))"
    from False 1 have "a div 2 < N" unfolding N_def by simp
    then have "a < 2 * N" by arith
    then have "a < 2 ^ (53 + Suc (ulp_exponent (a div 2)))"
      unfolding N_def by (simp only: add_Suc_right power_Suc)
    moreover from False have "ulp_exponent a = Suc (ulp_exponent (a div 2))"
      by (rule ulp_exponent_large)
    ultimately show ?thesis by (simp only:)
  qed
qed

lemma ulp_exponent_lower: "0 < ulp_exponent a \<Longrightarrow> 2 ^ (52 + ulp_exponent a) \<le> a"
proof (induction a rule: ulp_exponent.induct)
  case (1 a)
  show ?case
  proof (cases "a < 2 ^ 53")
    case True
    with "1.prems" show ?thesis by (simp add: ulp_exponent_small)
  next
    case False
    then have step: "ulp_exponent a = Suc (ulp_exponent (a div 2))"
      by (rule ulp_exponent_large)
    show ?thesis
    proof (cases "ulp_exponent (a div 2) = 0")
      case True
      with step False show ?thesis by simp
    next
      case nonzero: False
      define N :: nat where "N = 2 ^ (52 + ulp_exponent (a div 2))"
      from nonzero False "1.IH" have "N \<le> a div 2" unfolding N_def by simp
      then have "2 * N \<le> a" by arith
      then have "2 ^ (52 + Suc (ulp_exponent (a div 2))) \<le> a"
        unfolding N_def by (simp only: add_Suc_right power_Suc)
      with step show ?thesis by (simp only:)
    qed
  qed
qed


lemma ulp_exponent_unique:
  assumes "2 ^ (52 + s) \<le> m" and "m < 2 ^ (53 + s)"
  shows "ulp_exponent m = s"
proof -
  have "m < 2 ^ (53 + ulp_exponent m)" by (rule ulp_exponent_upper)
  with assms(1) have "(2::nat) ^ (52 + s) < 2 ^ (53 + ulp_exponent m)" by linarith
  then have "52 + s < 53 + ulp_exponent m"
    by (rule power_less_imp_less_exp [rotated]) simp
  then have le: "s \<le> ulp_exponent m" by simp
  show ?thesis
  proof (cases "ulp_exponent m = 0")
    case True
    with le show ?thesis by simp
  next
    case False
    then have "2 ^ (52 + ulp_exponent m) \<le> m" by (simp add: ulp_exponent_lower)
    with assms(2) have "(2::nat) ^ (52 + ulp_exponent m) < 2 ^ (53 + s)" by linarith
    then have "52 + ulp_exponent m < 53 + s"
      by (rule power_less_imp_less_exp [rotated]) simp
    with le show ?thesis by simp
  qed
qed













lemma to_double_tie_up: "to_double (2 ^ 53 + 3) = Finite (2 ^ 53 + 4)"
proof -
  have "ulp_exponent (2 ^ 53 + 3) = Suc (ulp_exponent ((2 ^ 53 + 3) div 2))"
    by (rule ulp_exponent_large) simp
  also have "ulp_exponent ((2 ^ 53 + 3) div 2) = 0"
    by (rule ulp_exponent_small) simp
  finally have s: "ulp_exponent (2 ^ 53 + 3) = 1" by simp
  have "round_to_nearest_even (2 ^ 53 + 3) = 2 ^ 53 + 4"
    using s by (simp add: round_to_nearest_even_def Let_def)
  moreover have "nat \<bar>2 ^ 53 + 3\<bar> = 2 ^ 53 + 3" by simp
  ultimately show ?thesis by (simp add: to_double_def Let_def)
qed

lemma to_double_overflow: "to_double (2 ^ 1024) = Infinity"
proof -
  have "ulp_exponent (2 ^ 1024) = 972"
    by (rule ulp_exponent_unique) simp_all
  then have "round_to_nearest_even (2 ^ 1024) = 2 ^ 1024"
    by (simp add: round_to_nearest_even_def Let_def)
  moreover have "nat \<bar>2 ^ 1024\<bar> = 2 ^ 1024" by simp
  ultimately show ?thesis by (simp add: to_double_def Let_def)
qed

subsection \<open>The order on sums\<close>


lemma number_le_refl: "number_le x x"
  by (cases x) simp_all






subsection \<open>Sums that do not round\<close>






subsection \<open>The two totals\<close>




end
